theory Spec2Isabelle
  imports Complex_Main "HOL-Library.Log_Nat"
begin

section \<open>Values that travel over HTTP\<close>

text \<open>
  The request body is what \<open>express.json()\<close> hands to the handlers: a parsed JSON
  object. A number is the value it denotes (a double is a rational); \<open>JNum 0\<close> stands
  for both zeros. A field that is absent reads as \<open>undefined\<close>, here \<open>None\<close>.
\<close>

datatype json =
    JNull
  | JBool bool
  | JNum rat
  | JStr string
  | JArr "json list"
  | JObj "(string \<times> json) list"

record request =
  authorization :: "string option"
  body :: "(string \<times> json) list"

definition field :: "request \<Rightarrow> string \<Rightarrow> json option" where
  "field req k = map_of (body req) k"

text \<open>JavaScript truthiness, as \<open>!mobile\<close> and \<open>!otp\<close> test it.\<close>

fun truthy :: "json option \<Rightarrow> bool" where
  "truthy None = False"
| "truthy (Some JNull) = False"
| "truthy (Some (JBool b)) = b"
| "truthy (Some (JNum x)) = (x \<noteq> 0)"
| "truthy (Some (JStr s)) = (s \<noteq> [])"
| "truthy (Some (JArr xs)) = True"
| "truthy (Some (JObj kvs)) = True"

section \<open>The two collections (models/User.js, models/Game.js)\<close>

record user =
  user_id :: nat
  mobile :: string
  otpHash :: "string option"
  otpExpiry :: "int option"
  user_createdAt :: int

record game =
  game_id :: nat
  userId :: nat
  userChoice :: string
  computerChoice :: string
  result :: string
  createdAt :: int

text \<open>
  \<open>mobile\<close> carries a unique index, and the handlers reach a user only through
  \<open>User.findOne({ mobile })\<close>: the user collection is a map from the phone number.
  The game collection is the list of its documents in insertion order.
\<close>

record store =
  users :: "string \<rightharpoonup> user"
  games :: "game list"

text \<open>The JSON bodies the handlers send, by shape.\<close>

datatype reply =
    ErrorBody string
  | OtpBody string string
  | TokenBody string
  | RoundBody string string string
  | HistoryBody "game list"
  | StatsBody nat nat nat

type_synonym response = "nat \<times> reply"

section \<open>What a handler reads from outside\<close>

text \<open>
  One request reads the clock (\<open>Date.now()\<close>, \<open>new Date()\<close>, in milliseconds), draws
  from \<open>Math.random()\<close>, lets bcrypt pick a salt, and lets the driver pick the key and
  the default \<open>createdAt\<close> of a document it constructs. \<open>now\<close> is the handler's own
  reading of the clock, \<open>docTime\<close> the one the schema default takes.
\<close>

record world =
  now :: int
  random :: rat
  salt :: nat
  newId :: nat
  docTime :: int

text \<open>
  bcryptjs and jsonwebtoken are libraries: the handlers are modelled over any
  implementation of the four calls they make. The signing secret and the one-hour
  lifetime are fixed arguments of \<open>jwt.sign\<close>, so they are part of the function;
  \<open>jwt_verify\<close> gives \<open>None\<close> where \<open>jwt.verify\<close> throws, and otherwise the
  \<open>userId\<close> of the decoded payload (the only tokens signed with the secret are those
  of verify-otp, whose payload is a user key).
\<close>

record library =
  bcrypt_hash :: "string \<Rightarrow> nat \<Rightarrow> string"
  bcrypt_compare :: "string \<Rightarrow> string \<Rightarrow> bool"
  jwt_sign :: "nat \<Rightarrow> int \<Rightarrow> string"
  jwt_verify :: "string \<Rightarrow> int \<Rightarrow> nat option"

section \<open>JavaScript string and array primitives\<close>

text \<open>A string is a list of \<open>char\<close>, code units below 256. The characters
  \<open>String.prototype.trim\<close> strips, among those: TAB, LF, VT, FF, CR, space and the
  no-break space.\<close>

definition is_space :: "char \<Rightarrow> bool" where
  "is_space c = (of_char c \<in> {9, 10, 11, 12, 13, 32, 160 :: nat})"

definition trim :: "string \<Rightarrow> string" where
  "trim s = rev (dropWhile is_space (rev (dropWhile is_space s)))"

definition is_digit :: "char \<Rightarrow> bool" where
  "is_digit c = (c \<in> set ''0123456789'')"

text \<open>\<open>/^\d{n}$/.test(s)\<close>\<close>

definition digits_exactly :: "nat \<Rightarrow> string \<Rightarrow> bool" where
  "digits_exactly n s = (length s = n \<and> list_all is_digit s)"

text \<open>\<open>s.split(" ")\<close>: a cut at every single space, empty parts kept.\<close>

fun split_space :: "string \<Rightarrow> string list" where
  "split_space [] = [[]]"
| "split_space (c # cs) =
     (if c = CHR '' '' then [] # split_space cs
      else (case split_space cs of
              [] \<Rightarrow> [[c]]
            | p # ps \<Rightarrow> (c # p) # ps))"

text \<open>\<open>xs[i]\<close>: \<open>undefined\<close> outside the array.\<close>

definition index :: "'a list \<Rightarrow> int \<Rightarrow> 'a option" where
  "index xs i = (if 0 \<le> i \<and> i < int (length xs) then Some (xs ! nat i) else None)"

text \<open>\<open>Number.prototype.toString\<close> on an integer of ordinary size.\<close>

definition digit_char :: "nat \<Rightarrow> char" where
  "digit_char d = ''0123456789'' ! d"

fun digits_of :: "nat \<Rightarrow> string" where
  "digits_of n = (if n < 10 then [digit_char n] else digits_of (n div 10) @ [digit_char (n mod 10)])"

declare digits_of.simps [simp del]

definition toString :: "int \<Rightarrow> string" where
  "toString i = (if i < 0 then CHR ''-'' # digits_of (nat (- i)) else digits_of (nat i))"

section \<open>Number arithmetic\<close>

text \<open>
  A JavaScript Number is an IEEE 754 binary64 value; a finite one is a rational. \<open>*\<close>
  and \<open>+\<close> compute the exact result and round it to the nearest double, ties to the
  even significand. \<open>binade x\<close> is the exponent \<open>e\<close> with \<open>2^e \<le> x < 2^(e+1)\<close> of a
  positive \<open>x\<close>; doubles around \<open>x\<close> are \<open>ulp x\<close> apart, 52 bits below the leading one
  and never finer than \<open>2^-1074\<close>. Overflow to infinity (from \<open>2^1024\<close> on) is not
  modelled: the handlers stay below \<open>2^14\<close>.
\<close>

definition rne :: "rat \<Rightarrow> int" where
  "rne y =
     (let f = \<lfloor>y\<rfloor>; d = y - of_int f
      in if d < 1 / 2 then f else if 1 / 2 < d then f + 1 else if even f then f else f + 1)"

definition binade :: "rat \<Rightarrow> int" where
  "binade x =
     (case quotient_of x of
        (p, q) \<Rightarrow> let d = bitlen p - bitlen q in if 2 powi d \<le> x then d else d - 1)"

definition ulp :: "rat \<Rightarrow> rat" where
  "ulp x = 2 powi (max (binade x) (- 1022) - 52)"

definition round_double :: "rat \<Rightarrow> rat" where
  "round_double x =
     (if x = 0 then 0 else sgn x * of_int (rne (\<bar>x\<bar> / ulp \<bar>x\<bar>)) * ulp \<bar>x\<bar>)"

definition js_mul :: "rat \<Rightarrow> rat \<Rightarrow> rat" where
  "js_mul a b = round_double (a * b)"

definition js_add :: "rat \<Rightarrow> rat \<Rightarrow> rat" where
  "js_add a b = round_double (a + b)"

text \<open>\<open>Math.random()\<close> returns a double that is at least 0 and below 1.\<close>

definition random_draw :: "rat \<Rightarrow> bool" where
  "random_draw r = (round_double r = r \<and> 0 \<le> r \<and> r < 1)"

section \<open>authMiddleware\<close>

text \<open>\<open>Inl\<close> is the response the middleware sends itself; \<open>Inr\<close> is \<open>req.userId\<close>
  when it calls \<open>next()\<close>.\<close>

definition token_of :: "request \<Rightarrow> string option" where
  "token_of req =
     (case authorization req of
        None \<Rightarrow> None
      | Some authHeader \<Rightarrow>
          if authHeader = [] then None
          else (case index (split_space authHeader) 1 of
                  None \<Rightarrow> None
                | Some token \<Rightarrow> if token = [] then None else Some token))"

definition authMiddleware :: "library \<Rightarrow> world \<Rightarrow> request \<Rightarrow> response + nat" where
  "authMiddleware L w req =
     (case token_of req of
        None \<Rightarrow> Inl (401, ErrorBody ''No token provided'')
      | Some token \<Rightarrow>
          (case jwt_verify L token (now w) of
             None \<Rightarrow> Inl (401, ErrorBody ''Invalid or expired token'')
           | Some decoded_userId \<Rightarrow> Inr decoded_userId))"

section \<open>POST /auth/request-otp\<close>

text \<open>\<open>Math.floor(1000 + Math.random() * 9000)\<close>\<close>

definition new_otp :: "rat \<Rightarrow> int" where
  "new_otp r = \<lfloor>js_add 1000 (js_mul r 9000)\<rfloor>"

definition request_otp :: "library \<Rightarrow> world \<Rightarrow> request \<Rightarrow> store \<Rightarrow> store \<times> response" where
  "request_otp L w req st =
     (if \<not> truthy (field req ''mobile'') then (st, (400, ErrorBody ''Mobile required''))
      else case field req ''mobile'' of
        Some (JStr mobile0) \<Rightarrow>
          (let mobile1 = trim mobile0 in
           if \<not> digits_exactly 10 mobile1
           then (st, (400, ErrorBody ''Invalid mobile number format (10 digits required)''))
           else
             let otp = toString (new_otp (random w));
                 otpHash1 = bcrypt_hash L otp (salt w);
                 otpExpiry1 = now w + 2 * 60 * 1000;
                 user0 = (case users st mobile1 of
                            Some u \<Rightarrow> u
                          | None \<Rightarrow> \<lparr>user_id = newId w, mobile = mobile1, otpHash = None,
                                     otpExpiry = None, user_createdAt = docTime w\<rparr>);
                 user1 = user0\<lparr>otpHash := Some otpHash1, otpExpiry := Some otpExpiry1\<rparr>
             in (st\<lparr>users := (users st)(mobile1 \<mapsto> user1)\<rparr>, (200, OtpBody ''OTP sent'' otp)))
      | _ \<Rightarrow> (st, (500, ErrorBody ''Server error'')))"

section \<open>POST /auth/verify-otp\<close>

definition verify_otp :: "library \<Rightarrow> world \<Rightarrow> request \<Rightarrow> store \<Rightarrow> store \<times> response" where
  "verify_otp L w req st =
     (if \<not> truthy (field req ''mobile'') \<or> \<not> truthy (field req ''otp'')
      then (st, (400, ErrorBody ''Mobile and OTP required''))
      else case (field req ''mobile'', field req ''otp'') of
        (Some (JStr mobile0), Some (JStr otp0)) \<Rightarrow>
          (let mobile1 = trim mobile0; otp1 = trim otp0 in
           if \<not> digits_exactly 10 mobile1 \<or> \<not> digits_exactly 4 otp1
           then (st, (400, ErrorBody ''Invalid mobile or OTP format''))
           else case users st mobile1 of
             None \<Rightarrow> (st, (400, ErrorBody ''User not found''))
           | Some u \<Rightarrow>
               (case otpExpiry u of
                  None \<Rightarrow> (st, (400, ErrorBody ''OTP expired''))
                | Some expiry \<Rightarrow>
                    if expiry < now w then (st, (400, ErrorBody ''OTP expired''))
                    else (case otpHash u of
                            None \<Rightarrow> (st, (500, ErrorBody ''Server error''))
                          | Some h \<Rightarrow>
                              if \<not> bcrypt_compare L otp1 h
                              then (st, (400, ErrorBody ''Invalid OTP''))
                              else
                                (st\<lparr>users := (users st)(mobile1 \<mapsto> u\<lparr>otpHash := None, otpExpiry := None\<rparr>)\<rparr>,
                                 (200, TokenBody (jwt_sign L (user_id u) (now w)))))))
      | _ \<Rightarrow> (st, (500, ErrorBody ''Server error'')))"

section \<open>The game routes\<close>

definition choices :: "string list" where
  "choices = [''stone'', ''paper'', ''scissor'']"

text \<open>\<open>choices.includes(userChoice)\<close>: only a string can equal one of the three.\<close>

definition includes_choice :: "json option \<Rightarrow> bool" where
  "includes_choice v = (case v of Some (JStr s) \<Rightarrow> s \<in> set choices | _ \<Rightarrow> False)"

text \<open>\<open>choices[Math.floor(Math.random() * choices.length)]\<close>\<close>

definition computer_choice :: "rat \<Rightarrow> string option" where
  "computer_choice r = index choices \<lfloor>js_mul r (of_nat (length choices))\<rfloor>"

text \<open>Lines 148 to 158 of server.js.\<close>

definition adjudicate :: "string \<Rightarrow> string \<Rightarrow> string" where
  "adjudicate uc cc =
     (if uc = cc then ''draw''
      else if (uc = ''stone'' \<and> cc = ''scissor'') \<or>
              (uc = ''paper'' \<and> cc = ''stone'') \<or>
              (uc = ''scissor'' \<and> cc = ''paper'')
      then ''win''
      else ''lose'')"

text \<open>
  The handler behind the middleware. Should the index fall outside \<open>choices\<close>,
  \<open>computerChoice\<close> is \<open>undefined\<close>, the schema's \<open>required\<close> rejects the document
  in \<open>game.save()\<close>, and the \<open>catch\<close> answers 500.
\<close>

definition play_handler :: "world \<Rightarrow> nat \<Rightarrow> request \<Rightarrow> store \<Rightarrow> store \<times> response" where
  "play_handler w uid req st =
     (if \<not> includes_choice (field req ''choice'') then (st, (400, ErrorBody ''Invalid choice''))
      else case field req ''choice'' of
        Some (JStr uc) \<Rightarrow>
          (case computer_choice (random w) of
             None \<Rightarrow> (st, (500, ErrorBody ''Server error''))
           | Some cc \<Rightarrow>
               (let res = adjudicate uc cc;
                    g = \<lparr>game_id = newId w, userId = uid, userChoice = uc,
                         computerChoice = cc, result = res, createdAt = docTime w\<rparr>
                in (st\<lparr>games := games st @ [g]\<rparr>, (200, RoundBody uc cc res))))
      | _ \<Rightarrow> (st, (400, ErrorBody ''Invalid choice'')))"

text \<open>\<open>Game.find({ userId }).sort({ createdAt: -1 }).limit(10)\<close>. Documents with the
  same \<open>createdAt\<close> keep their insertion order here; MongoDB promises no order among
  them.\<close>

definition find_games :: "nat \<Rightarrow> store \<Rightarrow> game list" where
  "find_games uid st = filter (\<lambda>g. userId g = uid) (games st)"

definition sort_newest_first :: "game list \<Rightarrow> game list" where
  "sort_newest_first gs = sort_key (\<lambda>g. - createdAt g) gs"

definition history :: "nat \<Rightarrow> store \<Rightarrow> game list" where
  "history uid st = take 10 (sort_newest_first (find_games uid st))"

definition history_handler :: "world \<Rightarrow> nat \<Rightarrow> request \<Rightarrow> store \<Rightarrow> store \<times> response" where
  "history_handler w uid req st = (st, (200, HistoryBody (history uid st)))"

record stats =
  win :: nat
  lose :: nat
  draw :: nat

text \<open>\<open>if (stats[g.result] !== undefined) stats[g.result]++\<close>, on the three counters.\<close>

definition tally :: "game \<Rightarrow> stats \<Rightarrow> stats" where
  "tally g s =
     (if result g = ''win'' then s\<lparr>win := win s + 1\<rparr>
      else if result g = ''lose'' then s\<lparr>lose := lose s + 1\<rparr>
      else if result g = ''draw'' then s\<lparr>draw := draw s + 1\<rparr>
      else s)"

definition scoreboard :: "nat \<Rightarrow> store \<Rightarrow> stats" where
  "scoreboard uid st = fold tally (find_games uid st) \<lparr>win = 0, lose = 0, draw = 0\<rparr>"

definition scoreboard_handler :: "world \<Rightarrow> nat \<Rightarrow> request \<Rightarrow> store \<Rightarrow> store \<times> response" where
  "scoreboard_handler w uid req st =
     (let s = scoreboard uid st in (st, (200, StatsBody (win s) (lose s) (draw s))))"

text \<open>\<open>app.post("/play", authMiddleware, ...)\<close> and its two siblings: the handler
  runs only when the middleware calls \<open>next()\<close>.\<close>

definition protected ::
  "(world \<Rightarrow> nat \<Rightarrow> request \<Rightarrow> store \<Rightarrow> store \<times> response) \<Rightarrow>
   library \<Rightarrow> world \<Rightarrow> request \<Rightarrow> store \<Rightarrow> store \<times> response" where
  "protected handler L w req st =
     (case authMiddleware L w req of
        Inl resp \<Rightarrow> (st, resp)
      | Inr uid \<Rightarrow> handler w uid req st)"

definition route_play :: "library \<Rightarrow> world \<Rightarrow> request \<Rightarrow> store \<Rightarrow> store \<times> response" where
  "route_play = protected play_handler"

definition route_history :: "library \<Rightarrow> world \<Rightarrow> request \<Rightarrow> store \<Rightarrow> store \<times> response" where
  "route_history = protected history_handler"

definition route_scoreboard :: "library \<Rightarrow> world \<Rightarrow> request \<Rightarrow> store \<Rightarrow> store \<times> response" where
  "route_scoreboard = protected scoreboard_handler"


section \<open>Names used in the statements\<close>

text \<open>
  The error kinds of the interface, as the responses that carry them: both are status
  400, told apart by the message.
\<close>

definition ExpiredError :: response where
  "ExpiredError = (400, ErrorBody ''OTP expired'')"

definition MismatchError :: response where
  "MismatchError = (400, ErrorBody ''Invalid OTP'')"

text \<open>The pairs (winner, loser) of the cycle stone > scissor > paper > stone.\<close>

definition beats :: "(string \<times> string) list" where
  "beats = [(''stone'', ''scissor''), (''scissor'', ''paper''), (''paper'', ''stone'')]"

text \<open>A request carries a valid token when the part the middleware extracts from
  the header verifies at the time of the request.\<close>

definition valid_bearer :: "library \<Rightarrow> world \<Rightarrow> request \<Rightarrow> bool" where
  "valid_bearer L w req =
     (case token_of req of None \<Rightarrow> False | Some t \<Rightarrow> jwt_verify L t (now w) \<noteq> None)"

text \<open>
  The parts of a header in the usual sense of "whitespace-separated": cut at every run
  of whitespace characters (space, tab and the others \<open>is_space\<close> lists), empty parts
  dropped. This is the reading of the words, not what the middleware computes.
\<close>

fun whitespace_split :: "string \<Rightarrow> string \<Rightarrow> string list" where
  "whitespace_split cur [] = (if cur = [] then [] else [cur])"
| "whitespace_split cur (c # cs) =
     (if is_space c
      then (if cur = [] then whitespace_split [] cs else cur # whitespace_split [] cs)
      else whitespace_split (cur @ [c]) cs)"

definition whitespace_parts :: "string \<Rightarrow> string list" where
  "whitespace_parts h = whitespace_split [] h"

text \<open>Each record is at least as new as the next one; each is strictly newer.\<close>

definition newest_first :: "game list \<Rightarrow> bool" where
  "newest_first gs = sorted_wrt (\<lambda>a b. createdAt b \<le> createdAt a) gs"

definition strictly_newest_first :: "game list \<Rightarrow> bool" where
  "strictly_newest_first gs = sorted_wrt (\<lambda>a b. createdAt b < createdAt a) gs"

subsection \<open>Concrete runs\<close>

text \<open>
  To run the handlers on concrete requests the two libraries need an implementation.
  This one keeps the code behind a fixed prefix and writes a token for user \<open>n\<close> as
  \<open>n\<close> letters; it stands for the real libraries only in the examples.
\<close>

definition demo_library :: library where
  "demo_library =
     \<lparr>bcrypt_hash = (\<lambda>s n. CHR ''$'' # s),
      bcrypt_compare = (\<lambda>s h. h = CHR ''$'' # s),
      jwt_sign = (\<lambda>uid t. replicate uid (CHR ''x'')),
      jwt_verify = (\<lambda>tok t. if list_all (\<lambda>c. c = CHR ''x'') tok then Some (length tok) else None)\<rparr>"

definition demo_world :: "int \<Rightarrow> rat \<Rightarrow> nat \<Rightarrow> world" where
  "demo_world t r i = \<lparr>now = t, random = r, salt = 0, newId = i, docTime = t\<rparr>"

definition empty_store :: store where
  "empty_store = \<lparr>users = Map.empty, games = []\<rparr>"

definition bearer :: "string \<Rightarrow> (string \<times> json) list \<Rightarrow> request" where
  "bearer tok b = \<lparr>authorization = Some (''Bearer '' @ tok), body = b\<rparr>"

definition anonymous :: "(string \<times> json) list \<Rightarrow> request" where
  "anonymous b = \<lparr>authorization = None, body = b\<rparr>"

definition otp_request :: "string \<Rightarrow> request" where
  "otp_request m = anonymous [(''mobile'', JStr m)]"

definition verify_request :: "string \<Rightarrow> string \<Rightarrow> request" where
  "verify_request m code = anonymous [(''mobile'', JStr m), (''otp'', JStr code)]"

definition play_request :: "string \<Rightarrow> string \<Rightarrow> request" where
  "play_request tok c = bearer tok [(''choice'', JStr c)]"

text \<open>The store after one code was requested for 9876543210 at time 0 (the draw 0
  gives the code 1000, valid until 120000), and after that code was verified at time 1.\<close>

definition issued_store :: store where
  "issued_store =
     fst (request_otp demo_library (demo_world 0 0 1) (otp_request ''9876543210'') empty_store)"

definition verified_store :: store where
  "verified_store =
     fst (verify_otp demo_library (demo_world 1 0 2) (verify_request ''9876543210'' ''1000'')
            issued_store)"

text \<open>The store after user 3 played twice, at the times 5 and 7, and the store after
  user 3 played twice within the same millisecond 5.\<close>

definition spaced_round_store :: store where
  "spaced_round_store =
     fst (route_play demo_library (demo_world 7 (1 / 2) 2) (play_request ''xxx'' ''stone'')
       (fst (route_play demo_library (demo_world 5 0 1) (play_request ''xxx'' ''stone'')
          empty_store)))"

definition two_round_store :: store where
  "two_round_store =
     fst (route_play demo_library (demo_world 5 (1 / 2) 2) (play_request ''xxx'' ''stone'')
       (fst (route_play demo_library (demo_world 5 0 1) (play_request ''xxx'' ''stone'')
          empty_store)))"

section \<open>Facts about rounding\<close>

lemma bitlen_rat_bounds:
  assumes "0 < p"
  shows "2 powi (bitlen p - 1) \<le> (of_int p :: rat) \<and> (of_int p :: rat) < 2 powi bitlen p"
proof -
  from assms have b: "1 \<le> bitlen p" by (auto simp: bitlen_alt_def)
  from bitlen_bounds [OF assms]
  have "2 ^ nat (bitlen p - 1) \<le> p" "p < 2 ^ nat (bitlen p)" by simp_all
  then have "(of_int (2 ^ nat (bitlen p - 1)) :: rat) \<le> of_int p" "(of_int p :: rat) < of_int (2 ^ nat (bitlen p))"
    by (simp_all only: of_int_le_iff of_int_less_iff)
  with b show ?thesis by (simp add: power_int_def)
qed

lemma binade_bounds:
  assumes "0 < x"
  shows "2 powi binade x \<le> x \<and> x < 2 powi (binade x + 1)"
proof -
  obtain p q where pq: "quotient_of x = (p, q)" by (cases "quotient_of x")
  then have q: "0 < q" by (rule quotient_of_denom_pos)
  from pq have x: "x = of_int p / of_int q" by (rule quotient_of_div)
  with assms q have p: "0 < p" by (simp add: zero_less_divide_iff)
  define d where "d = bitlen p - bitlen q"
  from bitlen_rat_bounds [OF p] bitlen_rat_bounds [OF q]
  have bp: "(of_int p :: rat) < 2 powi bitlen p" and bq: "2 powi (bitlen q - 1) \<le> (of_int q :: rat)"
    and bp': "2 powi (bitlen p - 1) \<le> (of_int p :: rat)" and bq': "(of_int q :: rat) < 2 powi bitlen q"
    by simp_all
  have qpos: "(0::rat) < of_int q" using q by simp
  have "x < 2 powi bitlen p / 2 powi (bitlen q - 1)"
    unfolding x using bp bq p
    by (intro frac_less) (auto)
  also have "\<dots> = 2 powi (d + 1)"
    by (simp add: d_def power_int_diff [symmetric] algebra_simps)
  finally have up: "x < 2 powi (d + 1)" .
  have "2 powi (bitlen p - 1) / 2 powi bitlen q < x"
    unfolding x using bp' bq' qpos
    by (intro frac_less2) (auto)
  moreover have "2 powi (bitlen p - 1) / 2 powi bitlen q = (2::rat) powi (d - 1)"
    by (simp add: d_def power_int_diff [symmetric] algebra_simps)
  ultimately have lo: "2 powi (d - 1) < x" by simp
  have "binade x = (if 2 powi d \<le> x then d else d - 1)"
    by (simp add: binade_def pq d_def Let_def)
  with up lo show ?thesis by (auto simp: not_le)
qed


lemma binade_less:
  assumes "0 < x" "x < 2 powi k"
  shows "binade x < k"
proof (rule ccontr)
  assume "\<not> binade x < k"
  then have "(2::rat) powi k \<le> 2 powi binade x"
    by (intro power_int_increasing) auto
  with binade_bounds [OF assms(1)] assms(2) show False by simp
qed

lemma binade_ge:
  assumes "0 < x" "2 powi k \<le> x"
  shows "k \<le> binade x"
proof (rule ccontr)
  assume "\<not> k \<le> binade x"
  then have "(2::rat) powi (binade x + 1) \<le> 2 powi k"
    by (intro power_int_increasing) auto
  with binade_bounds [OF assms(1)] assms(2) show False by simp
qed

lemma binade_eqI:
  assumes "2 powi k \<le> x" "x < 2 powi (k + 1)"
  shows "binade x = k"
proof -
  have "(0::rat) < 2 powi k" by simp
  from this assms(1) have "0 < x" by (rule less_le_trans)
  from binade_ge [OF this assms(1)] binade_less [OF \<open>0 < x\<close> assms(2)]
  show ?thesis by simp
qed

lemma rne_le:
  assumes "y \<le> of_int M"
  shows "rne y \<le> M"
proof -
  from assms have f: "\<lfloor>y\<rfloor> \<le> M" by (simp add: floor_le_iff)
  show ?thesis
  proof (cases "\<lfloor>y\<rfloor> = M")
    case True
    with assms have "y = of_int \<lfloor>y\<rfloor>"
      using of_int_floor_le [of y] by simp
    then have "y - of_int \<lfloor>y\<rfloor> = 0" by simp
    then show ?thesis using True by (simp add: rne_def Let_def)
  next
    case False
    with f have "\<lfloor>y\<rfloor> + 1 \<le> M" by simp
    then show ?thesis by (simp add: rne_def Let_def)
  qed
qed

lemma rne_ge:
  assumes "of_int M \<le> y"
  shows "M \<le> rne y"
proof -
  from assms have "M \<le> \<lfloor>y\<rfloor>" by (simp add: le_floor_iff)
  then show ?thesis by (simp add: rne_def Let_def)
qed

lemma rne_below_half:
  assumes "y \<le> of_int M - c" "1 / 2 < c"
  shows "rne y \<le> M - 1"
proof -
  from assms have "y < of_int M" by simp
  then have f: "\<lfloor>y\<rfloor> \<le> M - 1" by (simp add: floor_less_iff)
  show ?thesis
  proof (cases "\<lfloor>y\<rfloor> = M - 1")
    case True
    with assms have "y - of_int \<lfloor>y\<rfloor> < 1 / 2" by simp
    then show ?thesis using True by (simp add: rne_def Let_def)
  next
    case False
    with f have "\<lfloor>y\<rfloor> + 1 \<le> M - 1" by simp
    then show ?thesis by (simp add: rne_def Let_def)
  qed
qed


lemma ulp_pos: "0 < ulp x"
  by (simp add: ulp_def)

lemma round_double_pos:
  assumes "0 < x"
  shows "round_double x = of_int (rne (x / ulp x)) * ulp x"
  using assms by (simp add: round_double_def)

text \<open>Rounding never crosses a point of the grid of \<open>2 powi j\<close> that is at least as
  coarse as the spacing around the argument.\<close>

lemma grid_multiple:
  assumes "binade x \<le> j + 52" "- 1074 \<le> j"
  shows "\<exists>N. 2 powi j = of_int N * ulp x"
proof -
  define e where "e = max (binade x) (- 1022) - 52"
  from assms have "e \<le> j" by (simp add: e_def)
  then have "(2::rat) powi j = 2 powi (j - e) * 2 powi e"
    by (simp add: power_int_add [symmetric])
  also have "(2::rat) powi (j - e) = of_int (2 ^ nat (j - e))"
    using \<open>e \<le> j\<close> by (simp add: power_int_def)
  finally show ?thesis by (auto simp: ulp_def e_def)
qed

lemma round_double_le_grid:
  assumes "0 < x" "x \<le> of_int M * 2 powi j" "binade x \<le> j + 52" "- 1074 \<le> j"
  shows "round_double x \<le> of_int M * 2 powi j"
proof -
  from grid_multiple [OF assms(3,4)] obtain N where N: "2 powi j = of_int N * ulp x" by blast
  have "x / ulp x \<le> of_int (M * N)"
    using assms(2) ulp_pos [of x] by (simp add: N pos_divide_le_eq)
  then have "rne (x / ulp x) \<le> M * N" by (rule rne_le)
  then have "(of_int (rne (x / ulp x)) :: rat) \<le> of_int (M * N)" by (simp only: of_int_le_iff)
  then have "of_int (rne (x / ulp x)) * ulp x \<le> of_int (M * N) * ulp x"
    using ulp_pos [of x] by (simp only: mult_le_cancel_right_pos)
  then show ?thesis by (simp add: round_double_pos [OF assms(1)] N)
qed

lemma round_double_ge_grid:
  assumes "0 < x" "of_int M * 2 powi j \<le> x" "binade x \<le> j + 52" "- 1074 \<le> j"
  shows "of_int M * 2 powi j \<le> round_double x"
proof -
  from grid_multiple [OF assms(3,4)] obtain N where N: "2 powi j = of_int N * ulp x" by blast
  have "of_int (M * N) \<le> x / ulp x"
    using assms(2) ulp_pos [of x] by (simp add: N pos_le_divide_eq)
  then have "M * N \<le> rne (x / ulp x)" by (rule rne_ge)
  then have "(of_int (M * N) :: rat) \<le> of_int (rne (x / ulp x))" by (simp only: of_int_le_iff)
  then have "of_int (M * N) * ulp x \<le> of_int (rne (x / ulp x)) * ulp x"
    using ulp_pos [of x] by (simp only: mult_le_cancel_right_pos)
  then show ?thesis by (simp add: round_double_pos [OF assms(1)] N)
qed


lemma round_double_nonneg:
  assumes "0 \<le> x"
  shows "0 \<le> round_double x"
proof (cases "x = 0")
  case True
  then show ?thesis by (simp add: round_double_def)
next
  case False
  with assms have x: "0 < x" by simp
  then have "of_int 0 \<le> x / ulp x" using ulp_pos [of x] by simp
  then have "0 \<le> rne (x / ulp x)" by (rule rne_ge)
  then show ?thesis using ulp_pos [of x] by (simp add: round_double_pos [OF x])
qed

lemma random_draw_below_one:
  assumes "random_draw r"
  shows "0 \<le> r \<and> r \<le> 1 - 1 / 2 ^ 53"
proof (cases "r = 0")
  case True
  then show ?thesis by simp
next
  case False
  with assms have r: "0 < r" "r < 1" "round_double r = r" by (simp_all add: random_draw_def)
  from r(1,2) have b: "binade r < 0" by (intro binade_less) simp_all
  show ?thesis
  proof (cases "binade r = - 1")
    case True
    then have u: "ulp r = 1 / 2 ^ 53" by (simp add: ulp_def power_int_minus_divide)
    define K where "K = rne (r / ulp r)"
    from r(1,3) have rk: "r = of_int K / 2 ^ 53" by (simp add: round_double_pos K_def u)
    with r(2) have "(of_int K :: rat) < of_int (2 ^ 53)" by (simp add: pos_divide_less_eq)
    then have "K < 2 ^ 53" by (simp only: of_int_less_iff)
    then have "K \<le> 2 ^ 53 - 1" by simp
    then have "(of_int K :: rat) \<le> of_int (2 ^ 53 - 1)" by (simp only: of_int_le_iff)
    then have "r \<le> (2 ^ 53 - 1) / 2 ^ 53" by (simp add: rk divide_right_mono)
    with r(1) show ?thesis by (simp add: diff_divide_distrib)
  next
    case False
    with b have "binade r + 1 \<le> - 1" by simp
    then have "(2::rat) powi (binade r + 1) \<le> 2 powi (- 1)"
      by (intro power_int_increasing) simp_all
    with binade_bounds [OF r(1)] have "r < 1 / 2" by simp
    with r(1) show ?thesis by simp
  qed
qed

lemma js_mul_9000:
  assumes "0 \<le> r" "r \<le> 1 - 1 / 2 ^ 53"
  shows "0 \<le> js_mul r 9000 \<and> js_mul r 9000 \<le> 9000 - 1 / 2 ^ 39"
proof -
  define x where "x = r * 9000"
  from assms have x0: "0 \<le> x" and xu: "x \<le> 9000 - 9000 / 2 ^ 53" by (simp_all add: x_def)
  have "round_double x \<le> 9000 - 1 / 2 ^ 39"
  proof (cases "x = 0")
    case True
    then show ?thesis by (simp add: round_double_def)
  next
    case False
    with x0 have x: "0 < x" by simp
    show ?thesis
    proof (cases "x < 8192")
      case True
      then have "x < 2 powi 13" by simp
      with x have "binade x < 13" by (rule binade_less)
      then have b: "binade x \<le> - 39 + 52" by simp
      have "x \<le> of_int (2 ^ 52) * 2 powi (- 39)" using True by (simp add: power_int_minus_divide)
      from round_double_le_grid [OF x this b] have "round_double x \<le> 8192"
        by (simp add: power_int_minus_divide)
      then show ?thesis by simp
    next
      case False
      then have "2 powi 13 \<le> x" by simp
      moreover from xu have "x < 2 powi (13 + 1)" by simp
      ultimately have "binade x = 13" by (rule binade_eqI)
      then have u: "ulp x = 1 / 2 ^ 39" by (simp add: ulp_def power_int_minus_divide)
      have "x / ulp x \<le> of_int (9000 * 2 ^ 39) - 9000 / 16384"
        using xu by (simp add: u)
      then have "rne (x / ulp x) \<le> 9000 * 2 ^ 39 - 1" by (rule rne_below_half) simp
      then have "(of_int (rne (x / ulp x)) :: rat) \<le> of_int (9000 * 2 ^ 39 - 1)"
        by (simp only: of_int_le_iff)
      then have "of_int (rne (x / ulp x)) / 2 ^ 39 \<le> (of_int (9000 * 2 ^ 39 - 1) :: rat) / 2 ^ 39"
        by (rule divide_right_mono) simp
      then show ?thesis by (simp add: round_double_pos [OF x] u)
    qed
  qed
  with round_double_nonneg [OF x0] show ?thesis by (simp add: js_mul_def x_def)
qed

lemma js_add_1000:
  assumes "0 \<le> y" "y \<le> 9000 - 1 / 2 ^ 39"
  shows "1000 \<le> js_add 1000 y \<and> js_add 1000 y \<le> 10000 - 1 / 2 ^ 39"
proof -
  define z where "z = 1000 + y"
  from assms have z: "0 < z" and zl: "1000 \<le> z" and zu: "z \<le> 10000 - 1 / 2 ^ 39"
    by (simp_all add: z_def)
  from zu have "z < 2 powi 14" by simp
  with z have "binade z < 14" by (rule binade_less)
  then have b: "binade z \<le> - 39 + 52" by simp
  have "z \<le> of_int (10000 * 2 ^ 39 - 1) * 2 powi (- 39)"
    using zu by (simp add: power_int_minus_divide)
  from round_double_le_grid [OF z this b]
  have up: "round_double z \<le> 10000 - 1 / 2 ^ 39" by (simp add: power_int_minus_divide)
  have "of_int (1000 * 2 ^ 39) * 2 powi (- 39) \<le> z"
    using zl by (simp add: power_int_minus_divide)
  from round_double_ge_grid [OF z this b]
  have "1000 \<le> round_double z" by (simp add: power_int_minus_divide)
  with up show ?thesis by (simp add: js_add_def z_def)
qed

lemma new_otp_range:
  assumes "random_draw r"
  shows "1000 \<le> new_otp r \<and> new_otp r \<le> 9999"
proof -
  from random_draw_below_one [OF assms] have "0 \<le> r" "r \<le> 1 - 1 / 2 ^ 53" by simp_all
  from js_mul_9000 [OF this] have "0 \<le> js_mul r 9000" "js_mul r 9000 \<le> 9000 - 1 / 2 ^ 39"
    by simp_all
  from js_add_1000 [OF this]
  have "1000 \<le> js_add 1000 (js_mul r 9000)" "js_add 1000 (js_mul r 9000) < 10000"
    by simp_all
  then have "1000 \<le> \<lfloor>js_add 1000 (js_mul r 9000)\<rfloor>" "\<lfloor>js_add 1000 (js_mul r 9000)\<rfloor> < 10000"
    by (simp_all add: le_floor_iff floor_less_iff)
  then show ?thesis by (simp add: new_otp_def)
qed

lemma js_mul_3:
  assumes "0 \<le> r" "r \<le> 1 - 1 / 2 ^ 53"
  shows "0 \<le> js_mul r 3 \<and> js_mul r 3 < 3"
proof -
  define x where "x = r * 3"
  from assms have x0: "0 \<le> x" and xu: "x \<le> 3 - 3 / 2 ^ 53" by (simp_all add: x_def)
  have "round_double x < 3"
  proof (cases "x = 0")
    case True
    then show ?thesis by (simp add: round_double_def)
  next
    case False
    with x0 have x: "0 < x" by simp
    show ?thesis
    proof (cases "x < 2")
      case True
      then have "x < 2 powi 1" by simp
      with x have "binade x < 1" by (rule binade_less)
      then have b: "binade x \<le> - 51 + 52" by simp
      have "x \<le> of_int (2 ^ 52) * 2 powi (- 51)" using True by (simp add: power_int_minus_divide)
      from round_double_le_grid [OF x this b] have "round_double x \<le> 2"
        by (simp add: power_int_minus_divide)
      then show ?thesis by simp
    next
      case False
      then have "2 powi 1 \<le> x" by simp
      moreover from xu have "x < 2 powi (1 + 1)" by simp
      ultimately have "binade x = 1" by (rule binade_eqI)
      then have u: "ulp x = 1 / 2 ^ 51" by (simp add: ulp_def power_int_minus_divide)
      have "x / ulp x \<le> of_int (3 * 2 ^ 51) - 3 / 4"
        using xu by (simp add: u)
      then have "rne (x / ulp x) \<le> 3 * 2 ^ 51 - 1" by (rule rne_below_half) simp
      then have "(of_int (rne (x / ulp x)) :: rat) \<le> of_int (3 * 2 ^ 51 - 1)"
        by (simp only: of_int_le_iff)
      then have "of_int (rne (x / ulp x)) / 2 ^ 51 \<le> (of_int (3 * 2 ^ 51 - 1) :: rat) / 2 ^ 51"
        by (rule divide_right_mono) simp
      then show ?thesis by (simp add: round_double_pos [OF x] u)
    qed
  qed
  with round_double_nonneg [OF x0] show ?thesis by (simp add: js_mul_def x_def)
qed


section \<open>Facts about strings\<close>

lemma is_digit_digit_char: "d < 10 \<Longrightarrow> is_digit (digit_char d)"
proof -
  assume "d < 10"
  then have "d \<in> {0,1,2,3,4,5,6,7,8,9}" by auto
  then show ?thesis by (auto simp: is_digit_def digit_char_def)
qed

lemma digits_of_all_digits: "list_all is_digit (digits_of n)"
proof (induction n rule: digits_of.induct)
  case (1 n)
  show ?case
  proof (cases "n < 10")
    case True
    then show ?thesis by (simp add: digits_of.simps [of n] is_digit_digit_char)
  next
    case False
    with 1 show ?thesis by (simp add: digits_of.simps [of n] is_digit_digit_char)
  qed
qed

lemma length_digits_of_small: "n < 10 \<Longrightarrow> length (digits_of n) = 1"
  by (simp add: digits_of.simps [of n])

lemma length_digits_of_step: "10 \<le> n \<Longrightarrow> length (digits_of n) = Suc (length (digits_of (n div 10)))"
  by (simp add: digits_of.simps [of n])

lemma length_digits_of_four:
  assumes "1000 \<le> n" "n \<le> 9999"
  shows "length (digits_of n) = 4"
proof -
  have a: "10 \<le> n" "10 \<le> n div 10" "10 \<le> n div 10 div 10" "n div 10 div 10 div 10 < 10"
    using assms by auto
  show ?thesis
    by (simp add: length_digits_of_step [OF a(1)] length_digits_of_step [OF a(2)]
        length_digits_of_step [OF a(3)] length_digits_of_small [OF a(4)])
qed

lemma toString_four_digits:
  assumes "1000 \<le> i" "i \<le> 9999"
  shows "digits_exactly 4 (toString i)"
proof -
  from assms have "1000 \<le> nat i" "nat i \<le> 9999" by simp_all
  then have "length (digits_of (nat i)) = 4" by (rule length_digits_of_four)
  with assms show ?thesis
    by (simp add: digits_exactly_def toString_def digits_of_all_digits)
qed

lemma digit_not_space: "is_digit c \<Longrightarrow> \<not> is_space c"
  by (auto simp: is_digit_def is_space_def)

lemma trim_digits:
  assumes "list_all is_digit s"
  shows "trim s = s"
proof (cases "s = []")
  case True
  then show ?thesis by (simp add: trim_def)
next
  case False
  with assms have "is_digit (hd s)" "is_digit (last s)"
    by (simp_all add: list_all_iff)
  then have "\<not> is_space (hd s)" "\<not> is_space (hd (rev s))"
    by (simp_all add: digit_not_space hd_rev)
  then have "dropWhile is_space s = s" "dropWhile is_space (rev s) = rev s"
    by (simp_all add: dropWhile_eq_self_iff)
  then show ?thesis by (simp add: trim_def)
qed

lemma trim_Nil: "trim [] = []"
  by (simp add: trim_def)

lemma digits_exactly_nonempty: "digits_exactly n (trim s) \<Longrightarrow> 0 < n \<Longrightarrow> s \<noteq> []"
  by (auto simp: digits_exactly_def trim_Nil)

section \<open>Facts about the handlers\<close>

lemma request_otp_issue:
  assumes "field req ''mobile'' = Some (JStr m)" "digits_exactly 10 (trim m)"
  shows "request_otp L w req st =
     (st\<lparr>users := (users st)(trim m \<mapsto>
          (case users st (trim m) of
             Some u \<Rightarrow> u
           | None \<Rightarrow> \<lparr>user_id = newId w, mobile = trim m, otpHash = None,
                      otpExpiry = None, user_createdAt = docTime w\<rparr>)
          \<lparr>otpHash := Some (bcrypt_hash L (toString (new_otp (random w))) (salt w)),
           otpExpiry := Some (now w + 120000)\<rparr>)\<rparr>,
      (200, OtpBody ''OTP sent'' (toString (new_otp (random w)))))"
proof -
  from assms(2) have "m \<noteq> []" by (rule digits_exactly_nonempty) simp
  with assms show ?thesis
    by (simp add: request_otp_def Let_def)
qed

lemma verify_otp_wellformed:
  assumes "field req ''mobile'' = Some (JStr m)" "field req ''otp'' = Some (JStr c)"
    "digits_exactly 10 (trim m)" "digits_exactly 4 (trim c)" "users st (trim m) = Some u"
  shows "verify_otp L w req st =
     (case otpExpiry u of
        None \<Rightarrow> (st, ExpiredError)
      | Some expiry \<Rightarrow>
          if expiry < now w then (st, ExpiredError)
          else (case otpHash u of
                  None \<Rightarrow> (st, (500, ErrorBody ''Server error''))
                | Some h \<Rightarrow>
                    if \<not> bcrypt_compare L (trim c) h then (st, MismatchError)
                    else (st\<lparr>users := (users st)(trim m \<mapsto> u\<lparr>otpHash := None, otpExpiry := None\<rparr>)\<rparr>,
                          (200, TokenBody (jwt_sign L (user_id u) (now w))))))"
proof -
  from assms(3) have "m \<noteq> []" by (rule digits_exactly_nonempty) simp
  moreover from assms(4) have "c \<noteq> []" by (rule digits_exactly_nonempty) simp
  ultimately show ?thesis
    using assms
    by (simp add: verify_otp_def Let_def ExpiredError_def MismatchError_def split: option.split)
qed

lemma field_otp_request: "field (otp_request m) ''mobile'' = Some (JStr m)"
  by (simp add: otp_request_def anonymous_def field_def)

lemma field_verify_request:
  "field (verify_request m c) ''mobile'' = Some (JStr m)"
  "field (verify_request m c) ''otp'' = Some (JStr c)"
  by (simp_all add: verify_request_def anonymous_def field_def)

lemma index_Some_mem: "index xs i = Some x \<Longrightarrow> x \<in> set xs"
  by (auto simp: index_def split: if_splits)

lemma computer_choice_total:
  assumes "random_draw r"
  shows "\<exists>cc. computer_choice r = Some cc \<and> cc \<in> set choices"
proof -
  from random_draw_below_one [OF assms] have "0 \<le> r" "r \<le> 1 - 1 / 2 ^ 53" by simp_all
  from js_mul_3 [OF this] have "0 \<le> js_mul r 3" "js_mul r 3 < 3" by simp_all
  then have "0 \<le> \<lfloor>js_mul r 3\<rfloor>" "\<lfloor>js_mul r 3\<rfloor> < 3" by (simp_all add: floor_less_iff)
  then obtain cc where "computer_choice r = Some cc"
    by (simp add: computer_choice_def index_def choices_def)
  then show ?thesis
    by (auto simp: computer_choice_def dest: index_Some_mem)
qed

lemma adjudicate_cases:
  assumes "uc \<in> set choices" "cc \<in> set choices"
  shows "(adjudicate uc cc = ''draw'' \<longleftrightarrow> uc = cc) \<and>
     (adjudicate uc cc = ''win'' \<longleftrightarrow> (uc, cc) \<in> set beats) \<and>
     (adjudicate uc cc = ''lose'' \<longleftrightarrow> uc \<noteq> cc \<and> (uc, cc) \<notin> set beats)"
  using assms by (auto simp: adjudicate_def choices_def beats_def)

lemma play_handler_round:
  assumes "field req ''choice'' = Some (JStr uc)" "uc \<in> set choices"
    "computer_choice (random w) = Some cc"
  shows "play_handler w uid req st =
      (st\<lparr>games := games st @
         [\<lparr>game_id = newId w, userId = uid, userChoice = uc, computerChoice = cc,
           result = adjudicate uc cc, createdAt = docTime w\<rparr>]\<rparr>,
       (200, RoundBody uc cc (adjudicate uc cc)))"
  using assms by (simp add: play_handler_def includes_choice_def Let_def)

lemma protected_next:
  "authMiddleware L w req = Inr uid \<Longrightarrow> protected h L w req st = h w uid req st"
  by (simp add: protected_def)

lemma protected_reject:
  "authMiddleware L w req = Inl resp \<Longrightarrow> protected h L w req st = (st, resp)"
  by (simp add: protected_def)

lemma authMiddleware_reject:
  "\<not> valid_bearer L w req \<Longrightarrow> \<exists>msg. authMiddleware L w req = Inl (401, ErrorBody msg)"
  by (auto simp: valid_bearer_def authMiddleware_def split: option.splits)

lemma split_space_no_space: "CHR '' '' \<notin> set t \<Longrightarrow> split_space t = [t]"
  by (induction t) auto

lemma split_space_first:
  "CHR '' '' \<notin> set a \<Longrightarrow> split_space (a @ CHR '' '' # b) = a # split_space b"
  by (induction a) auto

lemma split_space_second:
  assumes "CHR '' '' \<notin> set a" "CHR '' '' \<notin> set t"
  shows "index (split_space (a @ CHR '' '' # t)) 1 = Some t"
  using assms by (simp add: split_space_first split_space_no_space index_def)

text \<open>A header with no space character in it has no second part: a tab does not
  separate scheme and token.\<close>

lemma header_without_space_rejected:
  assumes "authorization req = Some h" "CHR '' '' \<notin> set h"
  shows "authMiddleware L w req = Inl (401, ErrorBody ''No token provided'')"
  using assms
  by (simp add: authMiddleware_def token_of_def split_space_no_space index_def)

lemma fold_tally_win:
  "win (fold tally gs s) = win s + length (filter (\<lambda>g. result g = ''win'') gs)"
  by (induction gs arbitrary: s) (auto simp: tally_def)

lemma fold_tally_lose:
  "lose (fold tally gs s) = lose s + length (filter (\<lambda>g. result g = ''lose'') gs)"
  by (induction gs arbitrary: s) (auto simp: tally_def)

lemma fold_tally_draw:
  "draw (fold tally gs s) = draw s + length (filter (\<lambda>g. result g = ''draw'') gs)"
  by (induction gs arbitrary: s) (auto simp: tally_def)

lemma newest_first_sort: "newest_first (sort_newest_first gs)"
proof -
  have "sorted (map (\<lambda>g. - createdAt g) (sort_key (\<lambda>g. - createdAt g) gs))"
    by (rule sorted_sort_key)
  then show ?thesis
    by (simp add: newest_first_def sort_newest_first_def sorted_wrt_map)
qed

lemma strictly_newest_first_sort:
  assumes "distinct (map createdAt gs)"
  shows "strictly_newest_first (sort_newest_first gs)"
proof -
  let ?f = "\<lambda>g. - createdAt g"
  from assms have "distinct gs" "inj_on createdAt (set gs)"
    by (simp_all add: distinct_map)
  then have "distinct (sort_key ?f gs)" "inj_on ?f (set (sort_key ?f gs))"
    by (simp_all add: inj_on_def)
  then have "distinct (map ?f (sort_key ?f gs))"
    by (simp only: distinct_map simp_thms)
  moreover have "sorted (map ?f (sort_key ?f gs))"
    by (rule sorted_sort_key)
  ultimately have "sorted_wrt (<) (map ?f (sort_key ?f gs))"
    by (simp only: strict_sorted_iff simp_thms)
  then show ?thesis
    by (simp add: strictly_newest_first_def sort_newest_first_def sorted_wrt_map)
qed

section \<open>The adjudication of a round\<close>

text \<open>
  C1. A caller who passed the middleware and sent one of the three choices gets, for
  every draw of \<open>Math.random()\<close>, a computer choice \<open>cc\<close> out of the three; the
  handler answers 200 with the two choices and the result, and appends exactly one
  round that records the caller, the two choices and that same result. For every
  computer choice of the three, the result is draw iff the choices are equal, win iff
  the pair is one of (stone, scissor), (paper, stone), (scissor, paper), and lose in
  the remaining cases.
\<close>

theorem play_adjudication:
  assumes "uc \<in> set choices" and "random_draw (random w)"
    and "authMiddleware L w req = Inr uid"
    and "field req ''choice'' = Some (JStr uc)"
  shows "(\<exists>cc \<in> set choices.
            route_play L w req st =
              (st\<lparr>games := games st @
                 [\<lparr>game_id = newId w, userId = uid, userChoice = uc, computerChoice = cc,
                   result = adjudicate uc cc, createdAt = docTime w\<rparr>]\<rparr>,
               (200, RoundBody uc cc (adjudicate uc cc)))) \<and>
         (\<forall>cc \<in> set choices.
            (adjudicate uc cc = ''draw'' \<longleftrightarrow> uc = cc) \<and>
            (adjudicate uc cc = ''win'' \<longleftrightarrow> (uc, cc) \<in> set beats) \<and>
            (adjudicate uc cc = ''lose'' \<longleftrightarrow> uc \<noteq> cc \<and> (uc, cc) \<notin> set beats))"
proof -
  from computer_choice_total [OF assms(2)]
  obtain cc where cc: "computer_choice (random w) = Some cc" "cc \<in> set choices" by blast
  have "route_play L w req st = play_handler w uid req st"
    using assms(3) by (simp add: route_play_def protected_next)
  with play_handler_round [OF assms(4) assms(1) cc(1)] cc(2)
  have "\<exists>cc \<in> set choices.
            route_play L w req st =
              (st\<lparr>games := games st @
                 [\<lparr>game_id = newId w, userId = uid, userChoice = uc, computerChoice = cc,
                   result = adjudicate uc cc, createdAt = docTime w\<rparr>]\<rparr>,
               (200, RoundBody uc cc (adjudicate uc cc)))"
    by auto
  with adjudicate_cases [OF assms(1)] show ?thesis by blast
qed

theorem play_adjudication_witness:
  "''stone'' \<in> set choices \<and>
   random_draw (random (demo_world 5 (3 / 4) 1)) \<and>
   authMiddleware demo_library (demo_world 5 (3 / 4) 1) (play_request ''xxx'' ''stone'') = Inr 3 \<and>
   field (play_request ''xxx'' ''stone'') ''choice'' = Some (JStr ''stone'') \<and>
   route_play demo_library (demo_world 5 (3 / 4) 1) (play_request ''xxx'' ''stone'') empty_store =
     (empty_store\<lparr>games :=
        [\<lparr>game_id = 1, userId = 3, userChoice = ''stone'', computerChoice = ''scissor'',
          result = ''win'', createdAt = 5\<rparr>]\<rparr>,
      (200, RoundBody ''stone'' ''scissor'' ''win'')) \<and>
   adjudicate ''stone'' ''stone'' = ''draw'' \<and>
   adjudicate ''stone'' ''paper'' = ''lose'' \<and>
   adjudicate ''stone'' ''scissor'' = ''win''"
proof -
  have h1: "''stone'' \<in> set choices" by (simp add: choices_def)
  have h2: "random_draw (random (demo_world 5 (3 / 4) 1))" by code_simp
  have h3: "authMiddleware demo_library (demo_world 5 (3 / 4) 1) (play_request ''xxx'' ''stone'') = Inr 3"
    by code_simp
  have h4: "field (play_request ''xxx'' ''stone'') ''choice'' = Some (JStr ''stone'')"
    by code_simp
  have h5: "snd (route_play demo_library (demo_world 5 (3 / 4) 1) (play_request ''xxx'' ''stone'') empty_store)
      = (200, RoundBody ''stone'' ''scissor'' ''win'')"
    by code_simp
  from play_adjudication [OF h1 h2 h3 h4, of empty_store]
  obtain cc where
    run: "route_play demo_library (demo_world 5 (3 / 4) 1) (play_request ''xxx'' ''stone'') empty_store =
       (empty_store\<lparr>games := games empty_store @
          [\<lparr>game_id = newId (demo_world 5 (3 / 4) 1), userId = 3, userChoice = ''stone'',
            computerChoice = cc, result = adjudicate ''stone'' cc,
            createdAt = docTime (demo_world 5 (3 / 4) 1)\<rparr>]\<rparr>,
        (200, RoundBody ''stone'' cc (adjudicate ''stone'' cc)))"
    and rel: "\<forall>cc \<in> set choices.
            (adjudicate ''stone'' cc = ''draw'' \<longleftrightarrow> ''stone'' = cc) \<and>
            (adjudicate ''stone'' cc = ''win'' \<longleftrightarrow> (''stone'', cc) \<in> set beats) \<and>
            (adjudicate ''stone'' cc = ''lose'' \<longleftrightarrow> ''stone'' \<noteq> cc \<and> (''stone'', cc) \<notin> set beats)"
    by blast
  from run h5 have "cc = ''scissor''" by simp
  moreover have "adjudicate ''stone'' ''scissor'' = ''win''" by (simp add: adjudicate_def)
  ultimately have r: "route_play demo_library (demo_world 5 (3 / 4) 1) (play_request ''xxx'' ''stone'') empty_store =
     (empty_store\<lparr>games :=
        [\<lparr>game_id = 1, userId = 3, userChoice = ''stone'', computerChoice = ''scissor'',
          result = ''win'', createdAt = 5\<rparr>]\<rparr>,
      (200, RoundBody ''stone'' ''scissor'' ''win''))"
    using run by (simp add: demo_world_def empty_store_def)
  from rel have "adjudicate ''stone'' ''stone'' = ''draw''" "adjudicate ''stone'' ''paper'' = ''lose''"
    "adjudicate ''stone'' ''scissor'' = ''win''"
    by (simp_all add: choices_def beats_def)
  with h1 h2 h3 h4 r show ?thesis by blast
qed

section \<open>One-time use of a code\<close>

text \<open>
  C2, as stated, fails: after a code was requested for 9876543210 and verified once,
  the second verification with the same phone number and code is answered
  \<open>OTP expired\<close> (ExpiredError), not \<open>Invalid OTP\<close> (MismatchError). The first
  verification cleared \<open>otpExpiry\<close>, and the handler tests the expiry before it
  compares the code.
\<close>

theorem second_verification_not_mismatch:
  "snd (request_otp demo_library (demo_world 0 0 1) (otp_request ''9876543210'') empty_store) =
     (200, OtpBody ''OTP sent'' ''1000'') \<and>
   snd (verify_otp demo_library (demo_world 1 0 2) (verify_request ''9876543210'' ''1000'')
          issued_store) = (200, TokenBody ''x'') \<and>
   snd (verify_otp demo_library (demo_world 2 0 3) (verify_request ''9876543210'' ''1000'')
          verified_store) = ExpiredError \<and>
   snd (verify_otp demo_library (demo_world 2 0 3) (verify_request ''9876543210'' ''1000'')
          verified_store) \<noteq> MismatchError"
  by code_simp

text \<open>
  C2, amended. For every phone number that is ten digits after trimming, every draw, and
  every bcrypt whose \<open>compare\<close> accepts what its \<open>hash\<close> produced: requesting a code
  answers 200 with a code; verifying with that phone number and code, no later than
  the two minutes, answers 200 with a token; verifying once more with the same phone
  number and code, at any time, changes nothing and fails with ExpiredError.
\<close>

theorem otp_single_use:
  assumes "digits_exactly 10 (trim m)" and "random_draw (random w1)"
    and "\<And>s n. bcrypt_compare L s (bcrypt_hash L s n)"
    and "now w2 \<le> now w1 + 120000"
  shows "\<exists>st1 code st2 token.
           request_otp L w1 (otp_request m) st = (st1, (200, OtpBody ''OTP sent'' code)) \<and>
           verify_otp L w2 (verify_request m code) st1 = (st2, (200, TokenBody token)) \<and>
           verify_otp L w3 (verify_request m code) st2 = (st2, ExpiredError)"
proof -
  define code where "code = toString (new_otp (random w1))"
  define u0 where "u0 = (case users st (trim m) of
             Some u \<Rightarrow> u
           | None \<Rightarrow> \<lparr>user_id = newId w1, mobile = trim m, otpHash = None,
                      otpExpiry = None, user_createdAt = docTime w1\<rparr>)"
  define u1 where "u1 = u0\<lparr>otpHash := Some (bcrypt_hash L code (salt w1)),
                          otpExpiry := Some (now w1 + 120000)\<rparr>"
  define st1 where "st1 = st\<lparr>users := (users st)(trim m \<mapsto> u1)\<rparr>"
  define u2 where "u2 = u1\<lparr>otpHash := None, otpExpiry := None\<rparr>"
  define st2 where "st2 = st1\<lparr>users := (users st1)(trim m \<mapsto> u2)\<rparr>"
  have code4: "digits_exactly 4 code"
    using new_otp_range [OF assms(2)] by (simp add: code_def toString_four_digits)
  then have tc: "trim code = code"
    by (simp add: digits_exactly_def trim_digits)
  have step1: "request_otp L w1 (otp_request m) st = (st1, (200, OtpBody ''OTP sent'' code))"
    by (simp add: request_otp_issue [OF field_otp_request assms(1)] st1_def u1_def u0_def code_def)
  have l1: "users st1 (trim m) = Some u1" by (simp add: st1_def)
  have step2: "verify_otp L w2 (verify_request m code) st1 =
      (st2, (200, TokenBody (jwt_sign L (user_id u1) (now w2))))"
    using assms(3,4) code4
    by (simp add: verify_otp_wellformed [OF field_verify_request assms(1) _ l1] tc u1_def st2_def u2_def)
  have l2: "users st2 (trim m) = Some u2" by (simp add: st2_def)
  have step3: "verify_otp L w3 (verify_request m code) st2 = (st2, ExpiredError)"
    using code4
    by (simp add: verify_otp_wellformed [OF field_verify_request assms(1) _ l2] tc u2_def)
  from step1 step2 step3 show ?thesis by blast
qed

theorem otp_single_use_witness:
  "digits_exactly 10 (trim ''9876543210'') \<and>
   random_draw (random (demo_world 0 0 1)) \<and>
   (\<forall>s n. bcrypt_compare demo_library s (bcrypt_hash demo_library s n)) \<and>
   now (demo_world 1 0 2) \<le> now (demo_world 0 0 1) + 120000 \<and>
   (\<exists>st1 code st2 token.
      request_otp demo_library (demo_world 0 0 1) (otp_request ''9876543210'') empty_store =
        (st1, (200, OtpBody ''OTP sent'' code)) \<and>
      verify_otp demo_library (demo_world 1 0 2) (verify_request ''9876543210'' code) st1 =
        (st2, (200, TokenBody token)) \<and>
      verify_otp demo_library (demo_world 2 0 3) (verify_request ''9876543210'' code) st2 =
        (st2, ExpiredError))"
proof -
  have h1: "digits_exactly 10 (trim ''9876543210'')" by code_simp
  have h2: "random_draw (random (demo_world 0 0 1))" by code_simp
  have h3: "\<And>s n. bcrypt_compare demo_library s (bcrypt_hash demo_library s n)"
    by (simp add: demo_library_def)
  have h4: "now (demo_world 1 0 2) \<le> now (demo_world 0 0 1) + 120000"
    by (simp add: demo_world_def)
  from otp_single_use [OF h1 h2 h3 h4, of empty_store "demo_world 2 0 3"] h1 h2 h3 h4
  show ?thesis by blast
qed

section \<open>The middleware in front of the game routes\<close>

text \<open>
  C3. When the request carries no token that verifies (no Authorization header, an
  empty one, no or an empty second part, or a token that \<open>jwt.verify\<close> rejects as
  unsigned, malformed or expired), each of /play, /history and /scoreboard answers 401
  and leaves the store, users and rounds, exactly as it was.
\<close>

theorem unauthenticated_rejected:
  assumes "\<not> valid_bearer L w req"
  shows "(\<exists>msg. route_play L w req st = (st, (401, ErrorBody msg))) \<and>
         (\<exists>msg. route_history L w req st = (st, (401, ErrorBody msg))) \<and>
         (\<exists>msg. route_scoreboard L w req st = (st, (401, ErrorBody msg)))"
proof -
  from authMiddleware_reject [OF assms]
  obtain msg where "authMiddleware L w req = Inl (401, ErrorBody msg)" by blast
  then show ?thesis
    by (simp add: route_play_def route_history_def route_scoreboard_def protected_reject)
qed

theorem unauthenticated_rejected_witness:
  "\<not> valid_bearer demo_library (demo_world 6 0 3) (play_request ''forged'' ''stone'') \<and>
   (\<exists>msg. route_play demo_library (demo_world 6 0 3) (play_request ''forged'' ''stone'')
            two_round_store = (two_round_store, (401, ErrorBody msg))) \<and>
   (\<exists>msg. route_history demo_library (demo_world 6 0 3) (play_request ''forged'' ''stone'')
            two_round_store = (two_round_store, (401, ErrorBody msg))) \<and>
   (\<exists>msg. route_scoreboard demo_library (demo_world 6 0 3) (play_request ''forged'' ''stone'')
            two_round_store = (two_round_store, (401, ErrorBody msg)))"
proof -
  have h: "\<not> valid_bearer demo_library (demo_world 6 0 3) (play_request ''forged'' ''stone'')"
    by code_simp
  from unauthenticated_rejected [OF h, of two_round_store] h show ?thesis by blast
qed

text \<open>
  C9, as stated, fails when the separator is not one single space. In the header
  \<open>Bearer<TAB>xxx\<close>, and in \<open>Bearer  xxx\<close> with two spaces, the second
  whitespace-separated part is \<open>xxx\<close>, a token that verifies for user 3; the
  middleware cuts at single spaces only, finds no second part, or an empty one, and
  answers 401 without running the handler.
\<close>

theorem second_whitespace_part_not_accepted:
  "index (whitespace_parts (''Bearer'' @ CHR 0x09 # ''xxx'')) 1 = Some ''xxx'' \<and>
   index (whitespace_parts ''Bearer  xxx'') 1 = Some ''xxx'' \<and>
   jwt_verify demo_library ''xxx'' (now (demo_world 6 0 3)) = Some 3 \<and>
   authMiddleware demo_library (demo_world 6 0 3)
     \<lparr>authorization = Some (''Bearer'' @ CHR 0x09 # ''xxx''), body = []\<rparr> =
     Inl (401, ErrorBody ''No token provided'') \<and>
   authMiddleware demo_library (demo_world 6 0 3)
     \<lparr>authorization = Some ''Bearer  xxx'', body = []\<rparr> =
     Inl (401, ErrorBody ''No token provided'') \<and>
   snd (route_scoreboard demo_library (demo_world 6 0 3)
     \<lparr>authorization = Some (''Bearer'' @ CHR 0x09 # ''xxx''), body = []\<rparr> two_round_store) =
     (401, ErrorBody ''No token provided'') \<and>
   snd (route_scoreboard demo_library (demo_world 6 0 3)
     \<lparr>authorization = Some ''Bearer xxx'', body = []\<rparr> two_round_store) =
     (200, StatsBody 0 1 1)"
  by code_simp

text \<open>
  C9, amended. The middleware looks only at the second part of the header, cut at
  single space characters. Whatever the first part (the scheme word) is, \<open>Bearer\<close> or
  not, if the second part is a non-empty token that verifies, the middleware passes
  the request on with the token's user, and the three handlers run as for that user.
  Anything after a further space is ignored.
\<close>

theorem scheme_word_unchecked:
  assumes "authorization req = Some (scheme @ CHR '' '' # token @ rest)"
    and "CHR '' '' \<notin> set scheme" and "CHR '' '' \<notin> set token" and "token \<noteq> []"
    and "rest = [] \<or> (\<exists>more. rest = CHR '' '' # more)"
    and "jwt_verify L token (now w) = Some uid"
  shows "authMiddleware L w req = Inr uid \<and>
         route_play L w req st = play_handler w uid req st \<and>
         route_history L w req st = history_handler w uid req st \<and>
         route_scoreboard L w req st = scoreboard_handler w uid req st"
proof -
  have "index (split_space (token @ rest)) 0 = Some token"
    using assms(3,5) by (auto simp: split_space_no_space split_space_first index_def)
  then have "index (split_space (scheme @ CHR '' '' # token @ rest)) 1 = Some token"
    using assms(2) by (auto simp: split_space_first index_def split: if_splits)
  then have "token_of req = Some token"
    using assms(1,4) by (simp add: token_of_def)
  then have "authMiddleware L w req = Inr uid"
    using assms(6) by (simp add: authMiddleware_def)
  then show ?thesis
    by (simp add: route_play_def route_history_def route_scoreboard_def protected_next)
qed

theorem scheme_word_unchecked_witness:
  "authorization \<lparr>authorization = Some ''Basic xxx'', body = []\<rparr> =
     Some (''Basic'' @ CHR '' '' # ''xxx'' @ []) \<and>
   CHR '' '' \<notin> set ''Basic'' \<and> CHR '' '' \<notin> set ''xxx'' \<and> ''xxx'' \<noteq> [] \<and>
   jwt_verify demo_library ''xxx'' (now (demo_world 6 0 3)) = Some 3 \<and>
   ''Basic'' \<noteq> ''Bearer'' \<and>
   authMiddleware demo_library (demo_world 6 0 3) \<lparr>authorization = Some ''Basic xxx'', body = []\<rparr>
     = Inr 3 \<and>
   route_play demo_library (demo_world 6 0 3) \<lparr>authorization = Some ''Basic xxx'', body = []\<rparr>
     two_round_store = play_handler (demo_world 6 0 3) 3
       \<lparr>authorization = Some ''Basic xxx'', body = []\<rparr> two_round_store \<and>
   route_history demo_library (demo_world 6 0 3) \<lparr>authorization = Some ''Basic xxx'', body = []\<rparr>
     two_round_store = history_handler (demo_world 6 0 3) 3
       \<lparr>authorization = Some ''Basic xxx'', body = []\<rparr> two_round_store \<and>
   route_scoreboard demo_library (demo_world 6 0 3) \<lparr>authorization = Some ''Basic xxx'', body = []\<rparr>
     two_round_store = scoreboard_handler (demo_world 6 0 3) 3
       \<lparr>authorization = Some ''Basic xxx'', body = []\<rparr> two_round_store"
proof -
  have h1: "authorization \<lparr>authorization = Some ''Basic xxx'', body = []\<rparr> =
     Some (''Basic'' @ CHR '' '' # ''xxx'' @ [])" by simp
  have h2: "CHR '' '' \<notin> set ''Basic''" by simp
  have h3: "CHR '' '' \<notin> set ''xxx''" by simp
  have h4: "''xxx'' \<noteq> []" by simp
  have h5: "([]::string) = [] \<or> (\<exists>more. ([]::string) = CHR '' '' # more)" by simp
  have h6: "jwt_verify demo_library ''xxx'' (now (demo_world 6 0 3)) = Some 3"
    by (simp add: demo_library_def)
  have h7: "''Basic'' \<noteq> ''Bearer''" by simp
  from scheme_word_unchecked [OF h1 h2 h3 h4 h5 h6, of two_round_store] h1 h2 h3 h4 h6 h7
  show ?thesis by blast
qed

section \<open>Expiry of a code\<close>

text \<open>
  C4, as stated, fails at the expiry instant itself: the code issued at time 0 expires
  at 120000, and a verification at exactly 120000 with the matching code is accepted
  with a token. The handler rejects only when \<open>otpExpiry < new Date()\<close>.
\<close>

theorem code_accepted_at_expiry_instant:
  "map_option otpExpiry (users issued_store ''9876543210'') = Some (Some 120000) \<and>
   now (demo_world 120000 0 2) = 120000 \<and>
   snd (verify_otp demo_library (demo_world 120000 0 2) (verify_request ''9876543210'' ''1000'')
          issued_store) = (200, TokenBody ''x'') \<and>
   snd (verify_otp demo_library (demo_world 120000 0 2) (verify_request ''9876543210'' ''1000'')
          issued_store) \<noteq> ExpiredError"
  by code_simp

text \<open>
  C4, amended. For a well-formed verify-otp request (a phone number of ten digits and
  a code of four, after trimming) that finds its Identity: whenever the stored
  \<open>otpExpiry\<close> is unset, or the current time is strictly after it, the request fails
  with ExpiredError and the store is unchanged. Nothing is assumed about the presented
  code or the stored hash, so this holds also when they match.
\<close>

theorem expired_code_rejected:
  assumes "field req ''mobile'' = Some (JStr m)" and "field req ''otp'' = Some (JStr c)"
    and "digits_exactly 10 (trim m)" and "digits_exactly 4 (trim c)"
    and "users st (trim m) = Some u"
    and "otpExpiry u = None \<or> (\<exists>expiry. otpExpiry u = Some expiry \<and> expiry < now w)"
  shows "verify_otp L w req st = (st, ExpiredError)"
  using assms(6) by (auto simp: verify_otp_wellformed [OF assms(1-5)])

theorem expired_code_rejected_witness:
  "field (verify_request ''9876543210'' ''1000'') ''mobile'' = Some (JStr ''9876543210'') \<and>
   field (verify_request ''9876543210'' ''1000'') ''otp'' = Some (JStr ''1000'') \<and>
   digits_exactly 10 (trim ''9876543210'') \<and> digits_exactly 4 (trim ''1000'') \<and>
   users issued_store (trim ''9876543210'') =
     Some \<lparr>user_id = 1, mobile = ''9876543210'', otpHash = Some ''$1000'',
           otpExpiry = Some 120000, user_createdAt = 0\<rparr> \<and>
   bcrypt_compare demo_library ''1000'' ''$1000'' \<and>
   (120000::int) < now (demo_world 120001 0 2) \<and>
   verify_otp demo_library (demo_world 120001 0 2) (verify_request ''9876543210'' ''1000'')
     issued_store = (issued_store, ExpiredError) \<and>
   users verified_store (trim ''9876543210'') =
     Some \<lparr>user_id = 1, mobile = ''9876543210'', otpHash = None,
           otpExpiry = None, user_createdAt = 0\<rparr> \<and>
   verify_otp demo_library (demo_world 2 0 3) (verify_request ''9876543210'' ''1000'')
     verified_store = (verified_store, ExpiredError)"
proof -
  let ?u = "\<lparr>user_id = 1, mobile = ''9876543210'', otpHash = Some ''$1000'',
           otpExpiry = Some (120000::int), user_createdAt = 0\<rparr>"
  let ?v = "\<lparr>user_id = 1, mobile = ''9876543210'', otpHash = None,
           otpExpiry = None :: int option, user_createdAt = 0\<rparr>"
  have h1: "field (verify_request ''9876543210'' ''1000'') ''mobile'' = Some (JStr ''9876543210'')"
    by (rule field_verify_request)
  have h2: "field (verify_request ''9876543210'' ''1000'') ''otp'' = Some (JStr ''1000'')"
    by (rule field_verify_request)
  have h3: "digits_exactly 10 (trim ''9876543210'')" by code_simp
  have h4: "digits_exactly 4 (trim ''1000'')" by code_simp
  have h5: "users issued_store (trim ''9876543210'') = Some ?u" by code_simp
  have h6: "bcrypt_compare demo_library ''1000'' ''$1000''" by (simp add: demo_library_def)
  have h7: "(120000::int) < now (demo_world 120001 0 2)" by (simp add: demo_world_def)
  have h8: "otpExpiry ?u = None \<or>
      (\<exists>expiry. otpExpiry ?u = Some expiry \<and> expiry < now (demo_world 120001 0 2))"
    using h7 by simp
  have k5: "users verified_store (trim ''9876543210'') = Some ?v" by code_simp
  have k8: "otpExpiry ?v = None \<or>
      (\<exists>expiry. otpExpiry ?v = Some expiry \<and> expiry < now (demo_world 2 0 3))"
    by simp
  from expired_code_rejected [OF h1 h2 h3 h4 h5 h8, of demo_library]
    expired_code_rejected [OF h1 h2 h3 h4 k5 k8, of demo_library]
    h1 h2 h3 h4 h5 h6 h7 k5
  show ?thesis by blast
qed

text \<open>
  C5. Every verify-otp request that is not answered 200 (a missing or non-string field,
  a malformed phone number or code, no Identity for the phone number, an expired or
  unset expiry, a missing hash, a code that does not match) leaves the whole store as
  it was. A request answered 200 found an Identity under the trimmed phone number; the
  new store differs from the old one only in that Identity, whose \<open>otpHash\<close> and
  \<open>otpExpiry\<close> are cleared, and the response is the token signed over that Identity's
  key.
\<close>

theorem verify_otp_frame:
  "(fst (snd (verify_otp L w req st)) \<noteq> 200 \<longrightarrow> fst (verify_otp L w req st) = st) \<and>
   (fst (snd (verify_otp L w req st)) = 200 \<longrightarrow>
      (\<exists>m u. field req ''mobile'' = Some (JStr m) \<and> users st (trim m) = Some u \<and>
         verify_otp L w req st =
           (st\<lparr>users := (users st)(trim m \<mapsto> u\<lparr>otpHash := None, otpExpiry := None\<rparr>)\<rparr>,
            (200, TokenBody (jwt_sign L (user_id u) (now w))))))"
  by (simp add: verify_otp_def Let_def split: option.split json.split)

theorem verify_otp_frame_witness:
  "fst (snd (verify_otp demo_library (demo_world 1 0 2) (verify_request ''9876543210'' ''1001'')
               issued_store)) \<noteq> 200 \<and>
   fst (verify_otp demo_library (demo_world 1 0 2) (verify_request ''9876543210'' ''1001'')
          issued_store) = issued_store \<and>
   fst (snd (verify_otp demo_library (demo_world 1 0 2) (verify_request ''9876543210'' ''1000'')
               issued_store)) = 200 \<and>
   (\<exists>m u. field (verify_request ''9876543210'' ''1000'') ''mobile'' = Some (JStr m) \<and>
      users issued_store (trim m) = Some u \<and>
      verify_otp demo_library (demo_world 1 0 2) (verify_request ''9876543210'' ''1000'')
        issued_store =
        (issued_store\<lparr>users := (users issued_store)(trim m \<mapsto> u\<lparr>otpHash := None, otpExpiry := None\<rparr>)\<rparr>,
         (200, TokenBody (jwt_sign demo_library (user_id u) (now (demo_world 1 0 2))))))"
proof -
  have bad: "fst (snd (verify_otp demo_library (demo_world 1 0 2)
      (verify_request ''9876543210'' ''1001'') issued_store)) \<noteq> 200"
    by code_simp
  have good: "fst (snd (verify_otp demo_library (demo_world 1 0 2)
      (verify_request ''9876543210'' ''1000'') issued_store)) = 200"
    by code_simp
  from verify_otp_frame [of demo_library "demo_world 1 0 2" "verify_request ''9876543210'' ''1001''" issued_store]
    verify_otp_frame [of demo_library "demo_world 1 0 2" "verify_request ''9876543210'' ''1000''" issued_store]
    bad good
  show ?thesis by blast
qed

section \<open>History and scoreboard\<close>

text \<open>
  C6, as stated, fails when two of the caller's rounds carry the same creation time:
  after user 3 played twice within millisecond 5, /history returns both rounds, and
  neither is strictly newer than the other.
\<close>

theorem history_tie_not_strict:
  "snd (route_history demo_library (demo_world 6 0 3) (bearer ''xxx'' []) two_round_store) =
     (200, HistoryBody
        [\<lparr>game_id = 1, userId = 3, userChoice = ''stone'', computerChoice = ''stone'',
          result = ''draw'', createdAt = 5\<rparr>,
         \<lparr>game_id = 2, userId = 3, userChoice = ''stone'', computerChoice = ''paper'',
          result = ''lose'', createdAt = 5\<rparr>]) \<and>
   \<not> strictly_newest_first (history 3 two_round_store)"
  by code_simp

text \<open>
  C6, amended. For every caller the middleware lets through and every store, /history
  answers 200 with at most 10 records, each a stored round of the caller, ordered by
  creation time descending: no record is older than the one after it. When the
  caller's rounds have pairwise different creation times, each record is strictly
  newer than the one after it. The store is unchanged.
\<close>

theorem history_newest_first:
  assumes "authMiddleware L w req = Inr uid"
  shows "route_history L w req st = (st, (200, HistoryBody (history uid st))) \<and>
         length (history uid st) \<le> 10 \<and>
         list_all (\<lambda>g. g \<in> set (games st) \<and> userId g = uid) (history uid st) \<and>
         newest_first (history uid st) \<and>
         (distinct (map createdAt (find_games uid st)) \<longrightarrow>
            strictly_newest_first (history uid st))"
proof -
  have "route_history L w req st = (st, (200, HistoryBody (history uid st)))"
    using assms by (simp add: route_history_def protected_next history_handler_def)
  moreover have "length (history uid st) \<le> 10"
    by (simp add: history_def)
  moreover have "set (history uid st) \<subseteq> set (find_games uid st)"
    using set_take_subset [of 10 "sort_newest_first (find_games uid st)"]
    by (simp add: history_def sort_newest_first_def)
  then have "list_all (\<lambda>g. g \<in> set (games st) \<and> userId g = uid) (history uid st)"
    by (auto simp: list_all_iff find_games_def)
  moreover have "newest_first (history uid st)"
    using newest_first_sort [of "find_games uid st"]
    by (simp add: history_def newest_first_def)
  moreover have "distinct (map createdAt (find_games uid st)) \<longrightarrow>
      strictly_newest_first (history uid st)"
    using strictly_newest_first_sort [of "find_games uid st"]
    by (simp add: history_def strictly_newest_first_def)
  ultimately show ?thesis by blast
qed

theorem history_newest_first_witness:
  "authMiddleware demo_library (demo_world 9 0 4) (bearer ''xxx'' []) = Inr 3 \<and>
   distinct (map createdAt (find_games 3 spaced_round_store)) \<and>
   history 3 spaced_round_store =
     [\<lparr>game_id = 2, userId = 3, userChoice = ''stone'', computerChoice = ''paper'',
       result = ''lose'', createdAt = 7\<rparr>,
      \<lparr>game_id = 1, userId = 3, userChoice = ''stone'', computerChoice = ''stone'',
       result = ''draw'', createdAt = 5\<rparr>] \<and>
   route_history demo_library (demo_world 9 0 4) (bearer ''xxx'' []) spaced_round_store =
     (spaced_round_store, (200, HistoryBody (history 3 spaced_round_store))) \<and>
   length (history 3 spaced_round_store) \<le> 10 \<and>
   list_all (\<lambda>g. g \<in> set (games spaced_round_store) \<and> userId g = 3)
     (history 3 spaced_round_store) \<and>
   newest_first (history 3 spaced_round_store) \<and>
   strictly_newest_first (history 3 spaced_round_store)"
proof -
  have h: "authMiddleware demo_library (demo_world 9 0 4) (bearer ''xxx'' []) = Inr 3"
    by code_simp
  have d: "distinct (map createdAt (find_games 3 spaced_round_store))" by code_simp
  have e: "history 3 spaced_round_store =
     [\<lparr>game_id = 2, userId = 3, userChoice = ''stone'', computerChoice = ''paper'',
       result = ''lose'', createdAt = 7\<rparr>,
      \<lparr>game_id = 1, userId = 3, userChoice = ''stone'', computerChoice = ''stone'',
       result = ''draw'', createdAt = 5\<rparr>]"
    by code_simp
  from history_newest_first [OF h, of spaced_round_store] h d e
  show ?thesis by blast
qed

text \<open>
  C7. For every caller the middleware lets through and every store, /scoreboard
  answers 200 with the three counts: the number of stored rounds of that caller whose
  result is win, the number whose result is lose, the number whose result is draw.
  All stored rounds are scanned, and a round of another identity counts nowhere. The
  store is unchanged.
\<close>

theorem scoreboard_counts:
  assumes "authMiddleware L w req = Inr uid"
  shows "route_scoreboard L w req st =
     (st, (200, StatsBody
        (length (filter (\<lambda>g. userId g = uid \<and> result g = ''win'') (games st)))
        (length (filter (\<lambda>g. userId g = uid \<and> result g = ''lose'') (games st)))
        (length (filter (\<lambda>g. userId g = uid \<and> result g = ''draw'') (games st)))))"
proof -
  have "route_scoreboard L w req st = scoreboard_handler w uid req st"
    using assms by (simp add: route_scoreboard_def protected_next)
  moreover have "\<And>r. filter (\<lambda>g. result g = r) (find_games uid st) =
      filter (\<lambda>g. userId g = uid \<and> result g = r) (games st)"
    by (simp add: find_games_def conj_commute)
  ultimately show ?thesis
    by (simp add: scoreboard_handler_def scoreboard_def Let_def
        fold_tally_win fold_tally_lose fold_tally_draw)
qed

theorem scoreboard_counts_witness:
  "authMiddleware demo_library (demo_world 9 0 4) (bearer ''xxx'' []) = Inr 3 \<and>
   route_scoreboard demo_library (demo_world 9 0 4) (bearer ''xxx'' []) two_round_store =
     (two_round_store, (200, StatsBody 0 1 1))"
proof -
  have h: "authMiddleware demo_library (demo_world 9 0 4) (bearer ''xxx'' []) = Inr 3"
    by code_simp
  have g: "games two_round_store =
        [\<lparr>game_id = 1, userId = 3, userChoice = ''stone'', computerChoice = ''stone'',
          result = ''draw'', createdAt = 5\<rparr>,
         \<lparr>game_id = 2, userId = 3, userChoice = ''stone'', computerChoice = ''paper'',
          result = ''lose'', createdAt = 5\<rparr>]"
    by code_simp
  from scoreboard_counts [OF h, of two_round_store] h show ?thesis
    by (simp add: g)
qed

section \<open>Issuing a code\<close>



text \<open>
  C10. When the \<open>mobile\<close> field of a request-otp body is truthy and not a string (a
  non-zero number, \<open>true\<close>, an array, an object), \<open>mobile.trim()\<close> throws, and the
  handler answers 500 \<open>Server error\<close>, not one of its 400 responses; the store is
  unchanged.
\<close>

theorem request_otp_non_string_mobile:
  assumes "truthy (field req ''mobile'')" and "\<forall>s. field req ''mobile'' \<noteq> Some (JStr s)"
  shows "request_otp L w req st = (st, (500, ErrorBody ''Server error''))"
  using assms by (auto simp: request_otp_def split: option.splits json.splits)

theorem request_otp_non_string_mobile_witness:
  "truthy (field (anonymous [(''mobile'', JNum 9876543210)]) ''mobile'') \<and>
   (\<forall>s. field (anonymous [(''mobile'', JNum 9876543210)]) ''mobile'' \<noteq> Some (JStr s)) \<and>
   request_otp demo_library (demo_world 0 0 1) (anonymous [(''mobile'', JNum 9876543210)])
     empty_store = (empty_store, (500, ErrorBody ''Server error''))"
proof -
  have h1: "truthy (field (anonymous [(''mobile'', JNum 9876543210)]) ''mobile'')"
    by (simp add: field_def anonymous_def)
  have h2: "\<forall>s. field (anonymous [(''mobile'', JNum 9876543210)]) ''mobile'' \<noteq> Some (JStr s)"
    by (simp add: field_def anonymous_def)
  from request_otp_non_string_mobile [OF h1 h2, of demo_library "demo_world 0 0 1" empty_store] h1 h2
  show ?thesis by blast
qed

end
